theory Spec2Isabelle
  imports Main
begin

section \<open>The service worker \<^verbatim>\<open>sw.js\<close>: data model\<close>

text \<open>
  The worker is a set of event handlers over three collaborators of the platform:
  the cache storage (\<^verbatim>\<open>caches\<close>), the network (\<^verbatim>\<open>fetch\<close>) and, for the replay
  of queued records, an IndexedDB object store. Each handler is embedded as a function
  that takes the collaborators' state and returns what the handler settles with, the
  state afterwards and the calls it issued. A promise that rejects is an error value.
\<close>

subsection \<open>JavaScript values and \<^verbatim>\<open>JSON.stringify\<close>\<close>

text \<open>
  The values that \<^verbatim>\<open>JSON.parse\<close> produces and \<^verbatim>\<open>JSON.stringify\<close> consumes, plus
  \<^verbatim>\<open>undefined\<close>. Numbers are restricted to integers. An object lists its own
  properties in insertion order, each key once.
\<close>

datatype jsval =
    JUndefined
  | JNull
  | JBool bool
  | JNum int
  | JString string
  | JArray "jsval list"
  | JObject "(string \<times> jsval) list"

text \<open>JavaScript's \<^verbatim>\<open>ToBoolean\<close>: what \<^verbatim>\<open>||\<close> and \<^verbatim>\<open>if\<close> test.\<close>

fun truthy :: "jsval \<Rightarrow> bool" where
  "truthy JUndefined = False"
| "truthy JNull = False"
| "truthy (JBool b) = b"
| "truthy (JNum n) = (n \<noteq> 0)"
| "truthy (JString s) = (s \<noteq> [])"
| "truthy (JArray xs) = True"
| "truthy (JObject kvs) = True"

text \<open>\<^verbatim>\<open>a || b\<close> on values.\<close>

definition js_or :: "jsval \<Rightarrow> jsval \<Rightarrow> jsval" where
  "js_or a b = (if truthy a then a else b)"

definition hex_digit :: "nat \<Rightarrow> char" where
  "hex_digit n = ''0123456789abcdef'' ! (n mod 16)"

text \<open>The escape of one character inside a JSON string literal.\<close>

definition escape_char :: "char \<Rightarrow> string" where
  "escape_char c =
     (if c = CHR 0x22 then [CHR 0x5C, CHR 0x22]
      else if c = CHR 0x5C then [CHR 0x5C, CHR 0x5C]
      else if c = CHR 0x08 then [CHR 0x5C, CHR ''b'']
      else if c = CHR 0x09 then [CHR 0x5C, CHR ''t'']
      else if c = CHR 0x0A then [CHR 0x5C, CHR ''n'']
      else if c = CHR 0x0C then [CHR 0x5C, CHR ''f'']
      else if c = CHR 0x0D then [CHR 0x5C, CHR ''r'']
      else if of_char c < (32::nat) then
        [CHR 0x5C, CHR ''u'', CHR ''0'', CHR ''0'',
         hex_digit (of_char c div 16), hex_digit (of_char c)]
      else [c])"

definition quote :: "string \<Rightarrow> string" where
  "quote s = [CHR 0x22] @ concat (map escape_char s) @ [CHR 0x22]"

fun digits :: "nat \<Rightarrow> string" where
  "digits n =
     (if n < 10 then [''0123456789'' ! n]
      else digits (n div 10) @ [''0123456789'' ! (n mod 10)])"

definition show_int :: "int \<Rightarrow> string" where
  "show_int i = (if i < 0 then CHR ''-'' # digits (nat (- i)) else digits (nat i))"

fun join :: "string \<Rightarrow> string list \<Rightarrow> string" where
  "join sep [] = []"
| "join sep [x] = x"
| "join sep (x # y # ys) = x @ sep @ join sep (y # ys)"

text \<open>
  \<^verbatim>\<open>JSON.stringify\<close> of a value inside an array or an object: \<^verbatim>\<open>undefined\<close> is
  \<^verbatim>\<open>null\<close> in an array and its property is left out of an object.
\<close>

fun stringify_inner :: "jsval \<Rightarrow> string"
  and stringify_props :: "(string \<times> jsval) list \<Rightarrow> string list" where
  "stringify_inner JUndefined = ''null''"
| "stringify_inner JNull = ''null''"
| "stringify_inner (JBool b) = (if b then ''true'' else ''false'')"
| "stringify_inner (JNum n) = show_int n"
| "stringify_inner (JString s) = quote s"
| "stringify_inner (JArray xs) = ''['' @ join '','' (map stringify_inner xs) @ '']''"
| "stringify_inner (JObject kvs) = ''{'' @ join '','' (stringify_props kvs) @ ''}''"
| "stringify_props [] = []"
| "stringify_props ((k, v) # kvs) =
     (if v = JUndefined then stringify_props kvs
      else (quote k @ '':'' @ stringify_inner v) # stringify_props kvs)"

text \<open>\<^verbatim>\<open>JSON.stringify(v)\<close>; \<open>None\<close> is the result \<^verbatim>\<open>undefined\<close>.\<close>

definition JSON_stringify :: "jsval \<Rightarrow> string option" where
  "JSON_stringify v = (if v = JUndefined then None else Some (stringify_inner v))"

subsection \<open>Requests and responses\<close>

record url =
  origin :: string
  path :: string

record request =
  "method" :: string
  url :: url

datatype response_type = Basic | Cors | Default | Error | Opaque | OpaqueRedirect

record response =
  status :: nat
  type :: response_type
  headers :: "(string \<times> string) list"
  body :: string

text \<open>
  \<^verbatim>\<open>new Response(body, init)\<close>: the platform's constructor. A status that \<^verbatim>\<open>init\<close>
  does not give is 200; the type of a constructed response is \<^verbatim>\<open>default\<close>.
\<close>

record response_init =
  init_status :: "nat option"
  init_headers :: "(string \<times> string) list"

definition Response :: "string option \<Rightarrow> response_init \<Rightarrow> response" where
  "Response b init =
     \<lparr> status = (case init_status init of None \<Rightarrow> 200 | Some s \<Rightarrow> s),
       type = Default,
       headers = init_headers init,
       body = (case b of None \<Rightarrow> [] | Some s \<Rightarrow> s) \<rparr>"

subsection \<open>The cache storage\<close>

text \<open>
  A cache is the list of its entries in insertion order; the storage is the list
  of named caches in creation order. A request is its own key: two requests match when
  their method and URL are equal (\<^verbatim>\<open>Vary\<close> headers and URL fragments are not
  modelled). Reading the storage (\<^verbatim>\<open>match\<close>, \<^verbatim>\<open>keys\<close>), opening and deleting
  a cache always succeed; whether a write is accepted is the platform's to say, below.
\<close>

type_synonym cache = "(request \<times> response) list"
type_synonym cache_storage = "(string \<times> cache) list"

definition STATIC_CACHE :: string where
  "STATIC_CACHE = ''storymap-static-v1''"

definition DYNAMIC_CACHE :: string where
  "DYNAMIC_CACHE = ''storymap-dynamic-v1''"

definition STATIC_ASSETS :: "string list" where
  "STATIC_ASSETS = [''/'', ''/index.html'', ''/style.css'', ''/main.js'', ''/favicon.png'']"

definition API_ORIGIN :: string where
  "API_ORIGIN = ''https://story-api.dicoding.dev''"

text \<open>\<^verbatim>\<open>cache.match(request)\<close>: the first entry under the key.\<close>

definition cache_match :: "cache \<Rightarrow> request \<Rightarrow> response option" where
  "cache_match c req = map_of c req"

text \<open>\<^verbatim>\<open>cache.put(request, response)\<close>: entries under the key are replaced.\<close>

definition cache_put :: "request \<Rightarrow> response \<Rightarrow> cache \<Rightarrow> cache" where
  "cache_put req r c = filter (\<lambda>e. fst e \<noteq> req) c @ [(req, r)]"

text \<open>\<^verbatim>\<open>caches.keys()\<close>.\<close>

definition caches_keys :: "cache_storage \<Rightarrow> string list" where
  "caches_keys cs = map fst cs"

text \<open>\<^verbatim>\<open>caches.open(name)\<close>: the cache is created, empty, when there is none.\<close>

definition caches_open :: "string \<Rightarrow> cache_storage \<Rightarrow> cache_storage" where
  "caches_open name cs = (if name \<in> set (caches_keys cs) then cs else cs @ [(name, [])])"

text \<open>\<^verbatim>\<open>caches.delete(name)\<close>.\<close>

definition caches_delete :: "string \<Rightarrow> cache_storage \<Rightarrow> cache_storage" where
  "caches_delete name cs = filter (\<lambda>nc. fst nc \<noteq> name) cs"

text \<open>
  \<^verbatim>\<open>caches.match(request)\<close>: every cache of the storage is searched, in creation
  order, and the first match is the result.
\<close>

fun caches_match :: "cache_storage \<Rightarrow> request \<Rightarrow> response option" where
  "caches_match [] req = None"
| "caches_match ((name, c) # cs) req =
     (case cache_match c req of
        Some r \<Rightarrow> Some r
      | None \<Rightarrow> caches_match cs req)"

text \<open>The entries of the cache of a name (none when there is no such cache).\<close>

definition entries :: "string \<Rightarrow> cache_storage \<Rightarrow> cache" where
  "entries name cs = (case map_of cs name of None \<Rightarrow> [] | Some c \<Rightarrow> c)"

text \<open>A put into the cache of a name, in the storage.\<close>

definition put_in :: "string \<Rightarrow> request \<Rightarrow> response \<Rightarrow> cache_storage \<Rightarrow> cache_storage" where
  "put_in name req r cs =
     map (\<lambda>nc. if fst nc = name then (fst nc, cache_put req r (snd nc)) else nc) cs"

subsection \<open>The platform\<close>

text \<open>
  What the handlers cannot decide: whether the network answers a request (\<open>None\<close> is
  a rejected \<^verbatim>\<open>fetch\<close>) and whether the storage accepts a write.
\<close>

record platform =
  fetch :: "request \<Rightarrow> response option"
  put_ok :: "request \<Rightarrow> response \<Rightarrow> bool"

text \<open>
  \<^verbatim>\<open>caches.open(name).then((cache) => { cache.put(request, copy); })\<close>: nobody waits
  for the put, and a put that the storage refuses changes nothing and is not reported.
\<close>

definition open_then_put ::
  "platform \<Rightarrow> string \<Rightarrow> request \<Rightarrow> response \<Rightarrow> cache_storage \<Rightarrow> cache_storage" where
  "open_then_put p name req r cs =
     (let cs' = caches_open name cs
      in if put_ok p req r then put_in name req r cs' else cs')"

section \<open>The fetch handler\<close>

text \<open>
  The response of lines 76-81:
  \<^verbatim>\<open>new Response(JSON.stringify({ error: true, message: '...' }),
      { headers: { 'Content-Type': 'application/json' } })\<close>.
\<close>

definition offline_object :: jsval where
  "offline_object =
     JObject [(''error'', JBool True), (''message'', JString ''Offline - Data tidak tersedia'')]"

definition offline_response :: response where
  "offline_response =
     Response (JSON_stringify offline_object)
       \<lparr> init_status = None, init_headers = [(''Content-Type'', ''application/json'')] \<rparr>"

text \<open>
  What the page gets: the request is left to the browser (the handler returned without
  \<^verbatim>\<open>respondWith\<close>), it is answered with a response, or the promise given to
  \<^verbatim>\<open>respondWith\<close> rejects.
\<close>

datatype outcome = NotIntercepted | Responded response | NetworkError

record fetch_result =
  outcome :: outcome
  storage :: cache_storage
  fetched :: "request list"
  put_calls :: "(string \<times> request \<times> response) list"

definition fetch_handler :: "platform \<Rightarrow> cache_storage \<Rightarrow> request \<Rightarrow> fetch_result" where
  "fetch_handler p cs req =
     (if method req \<noteq> ''GET'' then
        \<lparr> outcome = NotIntercepted, storage = cs, fetched = [], put_calls = [] \<rparr>
      else if origin (url req) = API_ORIGIN then
        (case fetch p req of
           Some r \<Rightarrow>
             \<lparr> outcome = Responded r,
               storage = open_then_put p DYNAMIC_CACHE req r cs,
               fetched = [req],
               put_calls = [(DYNAMIC_CACHE, req, r)] \<rparr>
         | None \<Rightarrow>
             (case caches_match cs req of
                Some cached \<Rightarrow>
                  \<lparr> outcome = Responded cached, storage = cs, fetched = [req], put_calls = [] \<rparr>
              | None \<Rightarrow>
                  \<lparr> outcome = Responded offline_response, storage = cs,
                    fetched = [req], put_calls = [] \<rparr>))
      else
        (case caches_match cs req of
           Some cached \<Rightarrow>
             \<lparr> outcome = Responded cached, storage = cs, fetched = [], put_calls = [] \<rparr>
         | None \<Rightarrow>
             (case fetch p req of
                None \<Rightarrow>
                  \<lparr> outcome = NetworkError, storage = cs, fetched = [req], put_calls = [] \<rparr>
              | Some r \<Rightarrow>
                  if status r \<noteq> 200 \<or> type r \<noteq> Basic then
                    \<lparr> outcome = Responded r, storage = cs, fetched = [req], put_calls = [] \<rparr>
                  else
                    \<lparr> outcome = Responded r,
                      storage = open_then_put p STATIC_CACHE req r cs,
                      fetched = [req],
                      put_calls = [(STATIC_CACHE, req, r)] \<rparr>)))"

section \<open>The install and activate handlers\<close>

text \<open>A promise handed to \<^verbatim>\<open>event.waitUntil\<close>, once settled.\<close>

datatype settled = Resolved | Rejected

text \<open>
  A listed URL is relative: the request it makes is a GET to the worker's own origin
  (\<^verbatim>\<open>self.location.origin\<close>, a parameter here).
\<close>

definition asset_request :: "string \<Rightarrow> string \<Rightarrow> request" where
  "asset_request self_origin a = \<lparr> method = ''GET'', url = \<lparr> origin = self_origin, path = a \<rparr> \<rparr>"

definition ok_status :: "response \<Rightarrow> bool" where
  "ok_status r = (200 \<le> status r \<and> status r \<le> 299)"

text \<open>
  Modelled from the spec: \<^verbatim>\<open>cache.addAll(requests)\<close>, which is the platform's and not
  in the repository. The spec: "Failure to fetch/store any single listed resource fails
  the whole population step (atomic-or-nothing for the shell set)". As the Cache
  interface defines it, \<^verbatim>\<open>addAll\<close> fetches every request, rejects when a fetch fails or
  a response has a status outside 200-299 or the status 206, and only then writes all
  the entries as one batch, which is undone and rejected whole when the storage refuses
  an entry. \<open>None\<close> is the rejection.
\<close>

fun fetch_all :: "platform \<Rightarrow> request list \<Rightarrow> (request \<times> response) list option" where
  "fetch_all p [] = Some []"
| "fetch_all p (req # reqs) =
     (case fetch p req of
        None \<Rightarrow> None
      | Some r \<Rightarrow>
          if \<not> ok_status r \<or> status r = 206 then None
          else (case fetch_all p reqs of
                  None \<Rightarrow> None
                | Some es \<Rightarrow> Some ((req, r) # es)))"

definition cache_addAll ::
  "platform \<Rightarrow> string \<Rightarrow> request list \<Rightarrow> cache_storage \<Rightarrow> cache_storage option" where
  "cache_addAll p name reqs cs =
     (case fetch_all p reqs of
        None \<Rightarrow> None
      | Some es \<Rightarrow>
          if list_all (\<lambda>e. put_ok p (fst e) (snd e)) es
          then Some (fold (\<lambda>e. put_in name (fst e) (snd e)) es cs)
          else None)"

text \<open>
  Lines 15-24. The promise given to \<^verbatim>\<open>waitUntil\<close> is the one of \<^verbatim>\<open>addAll\<close>;
  \<^verbatim>\<open>skipWaiting\<close> touches neither the storage nor that promise.
\<close>

definition install :: "platform \<Rightarrow> string \<Rightarrow> cache_storage \<Rightarrow> settled \<times> cache_storage" where
  "install p self_origin cs =
     (let cs' = caches_open STATIC_CACHE cs
      in case cache_addAll p STATIC_CACHE (map (asset_request self_origin) STATIC_ASSETS) cs' of
           None \<Rightarrow> (Rejected, cs')
         | Some cs'' \<Rightarrow> (Resolved, cs''))"

text \<open>
  Lines 27-44: every name that is neither of the two current ones is deleted.
  \<^verbatim>\<open>clients.claim\<close> does not touch the storage.
\<close>

definition activate :: "cache_storage \<Rightarrow> cache_storage" where
  "activate cs =
     fold caches_delete
       (filter (\<lambda>cacheName. cacheName \<noteq> STATIC_CACHE \<and> cacheName \<noteq> DYNAMIC_CACHE)
          (caches_keys cs))
       cs"

section \<open>The push handler\<close>

text \<open>
  \<^verbatim>\<open>notificationData\<close>; a field the object literal does not have is \<^verbatim>\<open>undefined\<close>.
\<close>

record notificationData =
  title :: jsval
  body :: jsval
  icon :: jsval
  badge :: jsval
  image :: jsval
  tag :: jsval
  data :: jsval
  requireInteraction :: bool

record notification_action =
  action :: string
  action_title :: string
  action_icon :: "string option"

text \<open>A call \<^verbatim>\<open>showNotification(title, options)\<close>: the title and the options.\<close>

record shown = notificationData +
  actions :: "notification_action list"
  vibrate :: "nat list"
  timestamp :: nat

definition default_notificationData :: notificationData where
  "default_notificationData =
     \<lparr> title = JString ''Cerita Baru'',
       body = JString ''Ada cerita baru yang ditambahkan!'',
       icon = JString ''/favicon.png'',
       badge = JString ''/favicon.png'',
       image = JUndefined,
       tag = JString ''new-story'',
       data = JUndefined,
       requireInteraction = False \<rparr>"

text \<open>
  \<^verbatim>\<open>data.k\<close> for the keys the handler reads (\<^verbatim>\<open>title\<close>, \<^verbatim>\<open>body\<close>, \<^verbatim>\<open>message\<close>,
  \<^verbatim>\<open>icon\<close>, \<^verbatim>\<open>image\<close>, \<^verbatim>\<open>tag\<close>, \<^verbatim>\<open>data\<close>), none of which a prototype has:
  a TypeError on \<^verbatim>\<open>null\<close> and \<^verbatim>\<open>undefined\<close>, the own property of an object,
  \<^verbatim>\<open>undefined\<close> otherwise.
\<close>

datatype js_error = TypeError | SyntaxError

definition get_prop :: "jsval \<Rightarrow> string \<Rightarrow> js_error + jsval" where
  "get_prop v k =
     (case v of
        JUndefined \<Rightarrow> Inl TypeError
      | JNull \<Rightarrow> Inl TypeError
      | JObject kvs \<Rightarrow> Inr (case map_of kvs k of None \<Rightarrow> JUndefined | Some x \<Rightarrow> x)
      | _ \<Rightarrow> Inr JUndefined)"

text \<open>Sequencing of steps that may throw.\<close>

definition bind :: "js_error + 'a \<Rightarrow> ('a \<Rightarrow> js_error + 'b) \<Rightarrow> js_error + 'b" where
  "bind m f = (case m of Inl e \<Rightarrow> Inl e | Inr x \<Rightarrow> f x)"

text \<open>
  The \<^verbatim>\<open>try\<close> block of lines 125-135; \<open>parse\<close> is the platform's
  \<^verbatim>\<open>event.data.json()\<close>, with \<open>None\<close> for the text it throws on.
\<close>

definition parsed_notificationData ::
  "(string \<Rightarrow> jsval option) \<Rightarrow> string \<Rightarrow> js_error + notificationData" where
  "parsed_notificationData parse text =
     bind (case parse text of None \<Rightarrow> Inl SyntaxError | Some d \<Rightarrow> Inr d) (\<lambda>d.
     bind (get_prop d ''title'') (\<lambda>d_title.
     bind (get_prop d ''body'') (\<lambda>d_body.
     bind (get_prop d ''message'') (\<lambda>d_message.
     bind (get_prop d ''icon'') (\<lambda>d_icon.
     bind (get_prop d ''image'') (\<lambda>d_image.
     bind (get_prop d ''tag'') (\<lambda>d_tag.
     bind (get_prop d ''data'') (\<lambda>d_data.
       Inr \<lparr> title = js_or d_title (JString ''Cerita Baru''),
             body = js_or (js_or d_body d_message) (JString ''Ada cerita baru yang ditambahkan!''),
             icon = js_or d_icon (JString ''/favicon.png''),
             badge = JString ''/favicon.png'',
             image = js_or d_image JNull,
             tag = js_or d_tag (JString ''new-story''),
             data = js_or d_data (JObject []),
             requireInteraction = False \<rparr>))))))))"

text \<open>Lines 113-142: the value of \<^verbatim>\<open>notificationData\<close> when the notification is shown.\<close>

definition push_notificationData ::
  "(string \<Rightarrow> jsval option) \<Rightarrow> string option \<Rightarrow> notificationData" where
  "push_notificationData parse event_data =
     (case event_data of
        None \<Rightarrow> default_notificationData
      | Some text \<Rightarrow>
          (case parsed_notificationData parse text of
             Inr nd \<Rightarrow> nd
           | Inl e \<Rightarrow>
               if text \<noteq> [] then default_notificationData \<lparr> body := JString text \<rparr>
               else default_notificationData))"

text \<open>
  The handler: the calls of \<^verbatim>\<open>showNotification\<close> it makes. \<open>now\<close> is \<^verbatim>\<open>Date.now()\<close>,
  \<open>event_data\<close> the text of \<^verbatim>\<open>event.data\<close>, \<open>None\<close> when \<^verbatim>\<open>event.data\<close> is \<^verbatim>\<open>null\<close>.
\<close>

definition push_handler ::
  "(string \<Rightarrow> jsval option) \<Rightarrow> nat \<Rightarrow> string option \<Rightarrow> shown list" where
  "push_handler parse now event_data =
     (let nd = push_notificationData parse event_data
      in [\<lparr> title = title nd,
            body = body nd,
            icon = icon nd,
            badge = badge nd,
            image = image nd,
            tag = tag nd,
            data = data nd,
            requireInteraction = requireInteraction nd,
            actions =
              [\<lparr> action = ''view'', action_title = ''Lihat Cerita'', action_icon = Some ''/favicon.png'' \<rparr>,
               \<lparr> action = ''close'', action_title = ''Tutup'', action_icon = None \<rparr>],
            vibrate = [200, 100, 200],
            timestamp = now \<rparr>])"

section \<open>Background sync\<close>

text \<open>
  A record of the object store \<^verbatim>\<open>favorites\<close>: its key, the rest of it, and
  whether \<^verbatim>\<open>synced\<close> is truthy. The key is part of the record (the store has a key
  path), so that \<^verbatim>\<open>put(record)\<close> needs no key argument. The store lists its records
  by ascending key, as \<^verbatim>\<open>getAll\<close> returns them.
\<close>

record ('k, 'a) favorite =
  key :: 'k
  content :: 'a
  synced :: bool

text \<open>
  \<^verbatim>\<open>store.put(record)\<close>: the record of the same key is replaced; a record with a
  new key goes to its place in the order of the keys.
\<close>

fun store_put ::
  "('k::linorder, 'a) favorite \<Rightarrow> ('k, 'a) favorite list \<Rightarrow> ('k, 'a) favorite list" where
  "store_put v [] = [v]"
| "store_put v (x # xs) =
     (if key v = key x then v # xs
      else if key v < key x then v # x # xs
      else x # store_put v xs)"

text \<open>
  What the database does: whether \<^verbatim>\<open>indexedDB.open\<close> succeeds, whether \<^verbatim>\<open>getAll\<close>
  succeeds, and whether the write transaction completes (it changes nothing otherwise).
\<close>

record idb =
  open_ok :: bool
  getAll_ok :: bool
  write_ok :: bool

record ('k, 'a) sync_result =
  promise :: settled
  favorites :: "('k, 'a) favorite list"
  puts :: "('k, 'a) favorite list"

definition syncStories ::
  "idb \<Rightarrow> ('k::linorder, 'a) favorite list \<Rightarrow> ('k, 'a) sync_result" where
  "syncStories db store =
     (if \<not> open_ok db then \<lparr> promise = Rejected, favorites = store, puts = [] \<rparr>
      else if \<not> getAll_ok db then \<lparr> promise = Rejected, favorites = store, puts = [] \<rparr>
      else
        let unsynced = filter (\<lambda>f. \<not> synced f) store
        in if length unsynced > 0 then
             let written = map (\<lambda>favorite. favorite \<lparr> synced := True \<rparr>) unsynced
             in if write_ok db
                then \<lparr> promise = Resolved, favorites = fold store_put written store, puts = written \<rparr>
                else \<lparr> promise = Rejected, favorites = store, puts = written \<rparr>
           else \<lparr> promise = Resolved, favorites = store, puts = [] \<rparr>)"

text \<open>Lines 211-216; \<open>None\<close>: the handler does nothing.\<close>

definition sync_handler ::
  "idb \<Rightarrow> string \<Rightarrow> ('k::linorder, 'a) favorite list \<Rightarrow> ('k, 'a) sync_result option" where
  "sync_handler db event_tag store =
     (if event_tag = ''sync-stories'' then Some (syncStories db store) else None)"

section \<open>The storages the worker produces\<close>

text \<open>
  The storages that the handlers of a worker served from \<open>self_origin\<close> produce,
  starting from the empty storage: each handler that writes the storage may run, on
  any platform and any request.
\<close>

inductive reachable :: "string \<Rightarrow> cache_storage \<Rightarrow> bool" for self_origin :: string where
  "reachable self_origin []"
| "reachable self_origin cs \<Longrightarrow> reachable self_origin (snd (install p self_origin cs))"
| "reachable self_origin cs \<Longrightarrow> reachable self_origin (activate cs)"
| "reachable self_origin cs \<Longrightarrow> reachable self_origin (storage (fetch_handler p cs req))"

text \<open>Only the dynamic cache holds requests to the API origin, and no name is used twice.\<close>

definition api_only_in_dynamic :: "cache_storage \<Rightarrow> bool" where
  "api_only_in_dynamic cs =
     (distinct (caches_keys cs)
      \<and> (\<forall>nc\<in>set cs. fst nc \<noteq> DYNAMIC_CACHE \<longrightarrow>
            (\<forall>e\<in>set (snd nc). origin (url (fst e)) \<noteq> API_ORIGIN)))"

section \<open>Example inputs\<close>

text \<open>Concrete requests, responses, platforms and storages, for the instances below.\<close>

definition stories_request :: request where
  "stories_request =
     \<lparr> method = ''GET'',
       url = \<lparr> origin = ''https://story-api.dicoding.dev'', path = ''/v1/stories'' \<rparr> \<rparr>"

definition script_request :: request where
  "script_request =
     \<lparr> method = ''GET'', url = \<lparr> origin = ''https://storymap.example'', path = ''/chunk.js'' \<rparr> \<rparr>"

definition not_found :: response where
  "not_found = \<lparr> status = 404, type = Cors, headers = [], body = ''no such story'' \<rparr>"

definition stories_old :: response where
  "stories_old = \<lparr> status = 200, type = Cors, headers = [], body = ''[1]'' \<rparr>"

definition stories_new :: response where
  "stories_new = \<lparr> status = 200, type = Cors, headers = [], body = ''[1,2]'' \<rparr>"

definition script_response :: response where
  "script_response = \<lparr> status = 200, type = Basic, headers = [], body = ''run()'' \<rparr>"

definition offline :: platform where
  "offline = \<lparr> fetch = (\<lambda>req. None), put_ok = (\<lambda>req r. True) \<rparr>"

definition online :: "response \<Rightarrow> platform" where
  "online r = \<lparr> fetch = (\<lambda>req. Some r), put_ok = (\<lambda>req r. True) \<rparr>"

definition partial_content :: response where
  "partial_content = \<lparr> status = 206, type = Cors, headers = [], body = ''[1'' \<rparr>"

text \<open>A platform whose network answers with \<open>r\<close> and whose caches refuse a 206, as
  \<^verbatim>\<open>cache.put\<close> does.\<close>

definition refusing_206 :: "response \<Rightarrow> platform" where
  "refusing_206 r = \<lparr> fetch = (\<lambda>req. Some r), put_ok = (\<lambda>req r. status r \<noteq> 206) \<rparr>"

definition old_version_storage :: cache_storage where
  "old_version_storage =
     [(''storymap-static-v0'', [(script_request, script_response)]),
      (''storymap-static-v1'', [(script_request, script_response)]),
      (''storymap-v1'', []),
      (''storymap-dynamic-v1'', [(stories_request, stories_new)])]"

definition no_favicon :: platform where
  "no_favicon =
     \<lparr> fetch = (\<lambda>req. if path (url req) = ''/favicon.png'' then None else Some script_response),
       put_ok = (\<lambda>req r. True) \<rparr>"

definition titled_payload :: string where
  \<open>titled_payload = ''{"title":"T","body":"B"}''\<close>

text \<open>A decoder that knows the one payload above and throws on any other text.\<close>

definition decode_titled :: "string \<Rightarrow> jsval option" where
  "decode_titled text =
     (if text = titled_payload
      then Some (JObject [(''title'', JString ''T''), (''body'', JString ''B'')])
      else None)"

definition working_db :: idb where
  "working_db = \<lparr> open_ok = True, getAll_ok = True, write_ok = True \<rparr>"

definition queued :: "(nat, string) favorite list" where
  "queued =
     [\<lparr> key = 1, content = ''story-a'', synced = True \<rparr>,
      \<lparr> key = 2, content = ''story-b'', synced = False \<rparr>,
      \<lparr> key = 5, content = ''story-c'', synced = False \<rparr>]"

definition all_synced :: "(nat, string) favorite list" where
  "all_synced =
     [\<lparr> key = 1, content = ''story-a'', synced = True \<rparr>,
      \<lparr> key = 2, content = ''story-b'', synced = True \<rparr>,
      \<lparr> key = 5, content = ''story-c'', synced = True \<rparr>]"

section \<open>Facts about the cache storage\<close>

lemmas example_defs =
  stories_request_def script_request_def not_found_def stories_old_def stories_new_def
  script_response_def offline_def online_def partial_content_def refusing_206_def
  API_ORIGIN_def STATIC_CACHE_def DYNAMIC_CACHE_def

lemma cache_match_put: "cache_match (cache_put req r c) req = Some r"
proof -
  have "map_of (filter (\<lambda>e. fst e \<noteq> req) c) req = None"
    by (induction c) auto
  then show ?thesis
    by (simp add: cache_match_def cache_put_def map_add_def)
qed

lemma in_cache_putD: "e \<in> set (cache_put req r c) \<Longrightarrow> e = (req, r) \<or> e \<in> set c"
  by (auto simp: cache_put_def)

lemma entries_caches_open: "entries n (caches_open name cs) = entries n cs"
proof (cases "name \<in> set (caches_keys cs)")
  case True
  then show ?thesis by (simp add: caches_open_def)
next
  case False
  then have "map_of cs name = None"
    by (simp add: caches_keys_def map_of_eq_None_iff)
  then show ?thesis
    by (cases "map_of cs n") (auto simp: caches_open_def entries_def map_add_def)
qed

lemma map_of_put_in:
  "map_of (put_in name req r cs) n =
     (if n = name then map_option (cache_put req r) (map_of cs n) else map_of cs n)"
  by (induction cs) (auto simp: put_in_def)

lemma keys_caches_open: "name \<in> set (caches_keys (caches_open name cs))"
  by (simp add: caches_open_def caches_keys_def)

lemma entries_put_in:
  "entries n (put_in name req r cs) =
     (if n = name \<and> name \<in> set (caches_keys cs) then cache_put req r (entries n cs)
      else entries n cs)"
proof (cases "map_of cs name")
  case None
  then have "name \<notin> set (caches_keys cs)"
    by (simp add: caches_keys_def map_of_eq_None_iff)
  with None show ?thesis
    by (simp add: entries_def map_of_put_in)
next
  case (Some c)
  then have "name \<in> set (caches_keys cs)"
    by (metis caches_keys_def map_of_eq_None_iff option.distinct(1) set_map)
  with Some show ?thesis
    by (simp add: entries_def map_of_put_in)
qed

lemma keys_put_in: "caches_keys (put_in name req r cs) = caches_keys cs"
  by (induction cs) (auto simp: put_in_def caches_keys_def)

lemma keys_open_then_put: "name \<in> set (caches_keys (open_then_put p name req r cs))"
  by (simp add: open_then_put_def Let_def keys_put_in keys_caches_open)

lemma entries_open_then_put:
  "entries n (open_then_put p name req r cs) =
     (if n = name \<and> put_ok p req r then cache_put req r (entries n cs) else entries n cs)"
  by (simp add: open_then_put_def Let_def entries_put_in keys_caches_open entries_caches_open)

lemma caches_match_None_iff:
  "caches_match cs req = None \<longleftrightarrow> (\<forall>nc\<in>set cs. cache_match (snd nc) req = None)"
  by (induction cs req rule: caches_match.induct) (auto split: option.splits)

lemma caches_match_Some_stored:
  "caches_match cs req = Some r \<Longrightarrow> \<exists>nc\<in>set cs. cache_match (snd nc) req = Some r"
  by (induction cs req rule: caches_match.induct) (auto split: option.splits)

lemma caches_match_only_in:
  assumes "\<forall>nc\<in>set cs. fst nc \<noteq> name \<longrightarrow> cache_match (snd nc) req = None"
    and "cache_match (entries name cs) req = Some r"
  shows "caches_match cs req = Some r"
  using assms
proof (induction cs req rule: caches_match.induct)
  case (1 req)
  then show ?case by (simp add: entries_def cache_match_def)
next
  case (2 n c cs req)
  show ?case
  proof (cases "n = name")
    case True
    with 2(3) show ?thesis by (simp add: entries_def)
  next
    case False
    with 2(2) have none: "cache_match c req = None" by simp
    from False 2(3) have "cache_match (entries name cs) req = Some r"
      by (simp add: entries_def)
    with 2(1)[OF none] 2(2) none show ?thesis by simp
  qed
qed


lemma offline_body:
  \<open>response.body offline_response = ''{"error":true,"message":"Offline - Data tidak tersedia"}''\<close>
  by (simp add: offline_response_def offline_object_def Response_def JSON_stringify_def
      quote_def escape_char_def)

section \<open>Properties of the fetch handler\<close>

text \<open>
  Claim C1, amended. A GET request to the API origin whose network fetch succeeds is
  answered with the network's response, and the handler issues a put of a copy of it
  into the dynamic cache under the request, whatever the status of the response is. The
  dynamic cache exists afterwards; it holds the copy under the request when the platform
  accepts the put, and has the entries it had before when the platform refuses it. The
  answer does not depend on the put.
\<close>

theorem fetch_api_network_success_cached:
  assumes "method req = ''GET''" and "origin (url req) = API_ORIGIN"
    and "fetch p req = Some r"
  shows "outcome (fetch_handler p cs req) = Responded r
       \<and> put_calls (fetch_handler p cs req) = [(DYNAMIC_CACHE, req, r)]
       \<and> DYNAMIC_CACHE \<in> set (caches_keys (storage (fetch_handler p cs req)))
       \<and> (put_ok p req r \<longrightarrow>
            cache_match (entries DYNAMIC_CACHE (storage (fetch_handler p cs req))) req = Some r)
       \<and> (\<not> put_ok p req r \<longrightarrow>
            entries DYNAMIC_CACHE (storage (fetch_handler p cs req)) = entries DYNAMIC_CACHE cs)"
  using assms
  by (simp add: fetch_handler_def entries_open_then_put cache_match_put keys_open_then_put)

text \<open>
  Claim C1 as stated says that every fetched response is persisted, whatever its status.
  A 206 is fetched and returned, and the put of its copy is refused, as \<^verbatim>\<open>cache.put\<close>
  refuses a partial response; the handler does not wait for the put (lines 64-66), and
  the dynamic cache is left without the entry.
\<close>

theorem fetch_api_refused_put_counterexample:
  "method stories_request = ''GET''
   \<and> origin (url stories_request) = API_ORIGIN
   \<and> fetch (refusing_206 partial_content) stories_request = Some partial_content
   \<and> outcome (fetch_handler (refusing_206 partial_content) [] stories_request)
        = Responded partial_content
   \<and> cache_match
        (entries DYNAMIC_CACHE
           (storage (fetch_handler (refusing_206 partial_content) [] stories_request)))
        stories_request = None"
  by (simp add: example_defs fetch_handler_def open_then_put_def caches_open_def caches_keys_def
      entries_def cache_match_def Let_def)

text \<open>Two instances over an empty storage: a 404, which is stored, and a 206, which is not.\<close>

theorem fetch_api_network_success_cached_witness:
  "method stories_request = ''GET''
   \<and> origin (url stories_request) = API_ORIGIN
   \<and> fetch (refusing_206 not_found) stories_request = Some not_found
   \<and> status not_found = 404
   \<and> put_ok (refusing_206 not_found) stories_request not_found
   \<and> outcome (fetch_handler (refusing_206 not_found) [] stories_request) = Responded not_found
   \<and> put_calls (fetch_handler (refusing_206 not_found) [] stories_request)
        = [(DYNAMIC_CACHE, stories_request, not_found)]
   \<and> cache_match
        (entries DYNAMIC_CACHE (storage (fetch_handler (refusing_206 not_found) [] stories_request)))
        stories_request = Some not_found
   \<and> fetch (refusing_206 partial_content) stories_request = Some partial_content
   \<and> \<not> put_ok (refusing_206 partial_content) stories_request partial_content
   \<and> put_calls (fetch_handler (refusing_206 partial_content) [] stories_request)
        = [(DYNAMIC_CACHE, stories_request, partial_content)]
   \<and> entries DYNAMIC_CACHE
        (storage (fetch_handler (refusing_206 partial_content) [] stories_request)) = []"
proof -
  have h1: "method stories_request = ''GET''"
    and h2: "origin (url stories_request) = API_ORIGIN"
    and h3: "fetch (refusing_206 not_found) stories_request = Some not_found"
    and h4: "put_ok (refusing_206 not_found) stories_request not_found"
    and h5: "status not_found = 404"
    and h6: "fetch (refusing_206 partial_content) stories_request = Some partial_content"
    and h7: "\<not> put_ok (refusing_206 partial_content) stories_request partial_content"
    by (simp_all add: example_defs)
  have h8: "entries DYNAMIC_CACHE [] = []"
    by (simp add: entries_def)
  from fetch_api_network_success_cached [OF h1 h2 h3, of "[]"] fetch_api_network_success_cached [OF h1 h2 h6, of "[]"] h1 h2 h3 h4 h5 h6 h7 h8
  show ?thesis
    by simp
qed

text \<open>
  Claim C2. A GET request to the API origin is always answered with a response, never
  with the network's failure. When the fetch fails and no cache of the storage holds an
  entry for the request, the answer is the offline response, whose body is the JSON text of
  the object \<^verbatim>\<open>{error: true, message: "Offline - Data tidak tersedia"}\<close>.
\<close>

theorem fetch_api_offline_json:
  assumes "method req = ''GET''" and "origin (url req) = API_ORIGIN"
  shows \<open>(\<exists>resp. outcome (fetch_handler p cs req) = Responded resp)
       \<and> (fetch p req = None \<and> (\<forall>nc\<in>set cs. cache_match (snd nc) req = None) \<longrightarrow>
            outcome (fetch_handler p cs req) = Responded offline_response)
       \<and> JSON_stringify offline_object = Some (response.body offline_response)
       \<and> response.body offline_response =
            ''{"error":true,"message":"Offline - Data tidak tersedia"}''\<close>
proof -
  have "\<exists>resp. outcome (fetch_handler p cs req) = Responded resp"
    using assms by (simp add: fetch_handler_def split: option.splits)
  moreover have "fetch p req = None \<and> (\<forall>nc\<in>set cs. cache_match (snd nc) req = None) \<longrightarrow>
      outcome (fetch_handler p cs req) = Responded offline_response"
    using assms by (simp add: fetch_handler_def caches_match_None_iff [symmetric])
  moreover have "JSON_stringify offline_object = Some (response.body offline_response)"
    by (simp add: offline_response_def offline_object_def Response_def JSON_stringify_def)
  ultimately show ?thesis
    using offline_body by simp
qed

text \<open>An instance: no network, and a storage that holds another request only.\<close>

theorem fetch_api_offline_json_witness:
  \<open>method stories_request = ''GET''
   \<and> origin (url stories_request) = API_ORIGIN
   \<and> fetch offline stories_request = None
   \<and> cache_match (snd (STATIC_CACHE, [(script_request, script_response)])) stories_request = None
   \<and> outcome (fetch_handler offline [(STATIC_CACHE, [(script_request, script_response)])]
        stories_request) = Responded offline_response\<close>
proof -
  have h1: "method stories_request = ''GET''"
    and h2: "origin (url stories_request) = API_ORIGIN"
    and h3: "fetch offline stories_request = None"
    and h4: "cache_match (snd (STATIC_CACHE, [(script_request, script_response)])) stories_request = None"
    by (simp_all add: example_defs cache_match_def)
  from fetch_api_offline_json [OF h1 h2, of offline "[(STATIC_CACHE, [(script_request, script_response)])]"]
    h1 h2 h3 h4 show ?thesis
    by simp
qed

text \<open>
  Claim C4. For a GET request that is not to the API origin, when some cache of the
  storage holds an entry for the request, the handler answers with a stored entry
  (the first match in creation order), equal to it in every field, fetches nothing
  from the network and writes nothing.
\<close>

theorem fetch_static_cache_hit:
  assumes "method req = ''GET''" and "origin (url req) \<noteq> API_ORIGIN"
    and "\<exists>nc\<in>set cs. cache_match (snd nc) req \<noteq> None"
  shows "\<exists>r. caches_match cs req = Some r
           \<and> (\<exists>nc\<in>set cs. cache_match (snd nc) req = Some r)
           \<and> outcome (fetch_handler p cs req) = Responded r
           \<and> fetched (fetch_handler p cs req) = []
           \<and> storage (fetch_handler p cs req) = cs
           \<and> put_calls (fetch_handler p cs req) = []"
proof -
  from assms(3) obtain r where r: "caches_match cs req = Some r"
    using caches_match_None_iff by fastforce
  with assms(1,2) have "outcome (fetch_handler p cs req) = Responded r
      \<and> fetched (fetch_handler p cs req) = []
      \<and> storage (fetch_handler p cs req) = cs
      \<and> put_calls (fetch_handler p cs req) = []"
    by (simp add: fetch_handler_def)
  with r caches_match_Some_stored [OF r] show ?thesis by blast
qed

text \<open>An instance: a script held by the static cache.\<close>

theorem fetch_static_cache_hit_witness:
  "method script_request = ''GET''
   \<and> origin (url script_request) \<noteq> API_ORIGIN
   \<and> cache_match (snd (STATIC_CACHE, [(script_request, script_response)])) script_request
       = Some script_response
   \<and> outcome (fetch_handler (online not_found) [(STATIC_CACHE, [(script_request, script_response)])]
       script_request) = Responded script_response
   \<and> fetched (fetch_handler (online not_found) [(STATIC_CACHE, [(script_request, script_response)])]
       script_request) = []"
proof -
  have h1: "method script_request = ''GET''"
    and h2: "origin (url script_request) \<noteq> API_ORIGIN"
    and h3: "cache_match (snd (STATIC_CACHE, [(script_request, script_response)])) script_request
       = Some script_response"
    and h4: "caches_match [(STATIC_CACHE, [(script_request, script_response)])] script_request
       = Some script_response"
    by (simp_all add: example_defs cache_match_def)
  have "\<exists>nc\<in>set [(STATIC_CACHE, [(script_request, script_response)])].
      cache_match (snd nc) script_request \<noteq> None"
    using h3 by simp
  from fetch_static_cache_hit [OF h1 h2 this, of "online not_found"] h1 h2 h3 h4 show ?thesis
    by auto
qed



text \<open>
  Claim C10. The offline response is constructed with the one header
  \<^verbatim>\<open>Content-Type: application/json\<close> and no status, so its status is 200, the
  status of a successful answer of the network; what tells it apart is the field
  \<^verbatim>\<open>error: true\<close> of its body.
\<close>

theorem offline_response_status_200:
  assumes "method req = ''GET''" and "origin (url req) = API_ORIGIN"
    and "fetch p req = None" and "caches_match cs req = None"
  shows \<open>outcome (fetch_handler p cs req) = Responded offline_response
       \<and> offline_response =
           Response (JSON_stringify offline_object)
             \<lparr> init_status = None, init_headers = [(''Content-Type'', ''application/json'')] \<rparr>
       \<and> headers offline_response = [(''Content-Type'', ''application/json'')]
       \<and> status offline_response = 200
       \<and> response.body offline_response =
           ''{"error":true,"message":"Offline - Data tidak tersedia"}''
       \<and> get_prop offline_object ''error'' = Inr (JBool True)
       \<and> (\<forall>p' r'. fetch p' req = Some r' \<and> status r' = 200 \<longrightarrow>
             (\<exists>resp. outcome (fetch_handler p' cs req) = Responded resp
                \<and> status resp = status offline_response))\<close>
proof -
  have "outcome (fetch_handler p cs req) = Responded offline_response"
    using assms by (simp add: fetch_handler_def)
  moreover have "headers offline_response = [(''Content-Type'', ''application/json'')]"
    and "status offline_response = 200"
    by (simp_all add: offline_response_def Response_def)
  moreover have "get_prop offline_object ''error'' = Inr (JBool True)"
    by (simp add: offline_object_def get_prop_def)
  moreover have "\<exists>resp. outcome (fetch_handler p' cs req) = Responded resp
      \<and> status resp = status offline_response"
    if "fetch p' req = Some r' \<and> status r' = 200" for p' r'
    using assms(1,2) that
    by (simp add: fetch_handler_def offline_response_def Response_def)
  moreover have "offline_response =
      Response (JSON_stringify offline_object)
        \<lparr> init_status = None, init_headers = [(''Content-Type'', ''application/json'')] \<rparr>"
    by (simp add: offline_response_def)
  ultimately show ?thesis
    using offline_body by blast
qed

text \<open>An instance: no network and an empty storage, against a 200 from the network.\<close>

theorem offline_response_status_200_witness:
  \<open>method stories_request = ''GET''
   \<and> origin (url stories_request) = API_ORIGIN
   \<and> fetch offline stories_request = None
   \<and> caches_match [] stories_request = None
   \<and> outcome (fetch_handler offline [] stories_request) = Responded offline_response
   \<and> status offline_response = 200
   \<and> status stories_new = 200
   \<and> outcome (fetch_handler (online stories_new) [] stories_request) = Responded stories_new\<close>
proof -
  have h1: "method stories_request = ''GET''"
    and h2: "origin (url stories_request) = API_ORIGIN"
    and h3: "fetch offline stories_request = None"
    and h4: "caches_match [] stories_request = None"
    and h5: "status stories_new = 200"
    by (simp_all add: example_defs)
  have "outcome (fetch_handler (online stories_new) [] stories_request) = Responded stories_new"
    using h1 h2 by (simp add: fetch_handler_def online_def)
  with offline_response_status_200 [OF h1 h2 h3 h4] h1 h2 h3 h4 h5 show ?thesis
    by simp
qed

section \<open>Properties of install and activate\<close>

lemma fold_caches_delete:
  "fold caches_delete names cs = filter (\<lambda>nc. fst nc \<notin> set names) cs"
proof (induction names arbitrary: cs)
  case Nil
  then show ?case by simp
next
  case (Cons n names)
  then show ?case
    by (simp add: caches_delete_def conj_commute)
qed

lemma activate_filter:
  "activate cs = filter (\<lambda>nc. fst nc = STATIC_CACHE \<or> fst nc = DYNAMIC_CACHE) cs"
  unfolding activate_def fold_caches_delete caches_keys_def
  by (rule filter_cong) auto

lemma map_of_filter_key:
  "P k \<Longrightarrow> map_of (filter (\<lambda>nc. P (fst nc)) cs) k = map_of cs k"
  by (induction cs) auto

lemma entries_filter_key:
  "P k \<Longrightarrow> entries k (filter (\<lambda>nc. P (fst nc)) cs) = entries k cs"
  by (simp add: entries_def map_of_filter_key)

text \<open>
  Claim C6. Activation keeps exactly the caches named by the two current names, with
  their entries as they were, and deletes every other cache; activating again changes
  nothing more.
\<close>

theorem activate_keeps_current_only:
  "activate cs = filter (\<lambda>nc. fst nc = STATIC_CACHE \<or> fst nc = DYNAMIC_CACHE) cs
   \<and> set (caches_keys (activate cs)) = set (caches_keys cs) \<inter> {STATIC_CACHE, DYNAMIC_CACHE}
   \<and> entries STATIC_CACHE (activate cs) = entries STATIC_CACHE cs
   \<and> entries DYNAMIC_CACHE (activate cs) = entries DYNAMIC_CACHE cs
   \<and> activate (activate cs) = activate cs"
proof -
  let ?current = "\<lambda>n. n = STATIC_CACHE \<or> n = DYNAMIC_CACHE"
  have a: "activate cs = filter (\<lambda>nc. ?current (fst nc)) cs" for cs
    by (rule activate_filter)
  have "set (caches_keys (activate cs)) = set (caches_keys cs) \<inter> {STATIC_CACHE, DYNAMIC_CACHE}"
    unfolding a caches_keys_def by auto
  moreover have "entries STATIC_CACHE (activate cs) = entries STATIC_CACHE cs"
    unfolding a by (rule entries_filter_key) simp
  moreover have "entries DYNAMIC_CACHE (activate cs) = entries DYNAMIC_CACHE cs"
    unfolding a by (rule entries_filter_key) simp
  moreover have "activate (activate cs) = activate cs"
    unfolding a by simp
  ultimately show ?thesis
    using a by simp
qed

text \<open>An instance: a storage with two caches of another version.\<close>

theorem activate_keeps_current_only_witness:
  "activate old_version_storage =
     [(''storymap-static-v1'', [(script_request, script_response)]),
      (''storymap-dynamic-v1'', [(stories_request, stories_new)])]
   \<and> activate (activate old_version_storage) = activate old_version_storage"
proof -
  have "filter (\<lambda>nc. fst nc = STATIC_CACHE \<or> fst nc = DYNAMIC_CACHE) old_version_storage =
     [(''storymap-static-v1'', [(script_request, script_response)]),
      (''storymap-dynamic-v1'', [(stories_request, stories_new)])]"
    by (simp add: old_version_storage_def STATIC_CACHE_def DYNAMIC_CACHE_def)
  moreover note all = activate_keeps_current_only [of old_version_storage]
  ultimately have kept: "activate old_version_storage =
     [(''storymap-static-v1'', [(script_request, script_response)]),
      (''storymap-dynamic-v1'', [(stories_request, stories_new)])]"
    by (simp only:)
  from all have "activate (activate old_version_storage) = activate old_version_storage"
    by (elim conjE)
  with kept show ?thesis
    by (rule conjI)
qed

lemma fetch_all_Some:
  "fetch_all p reqs = Some es \<Longrightarrow> es = map (\<lambda>req. (req, the (fetch p req))) reqs"
  by (induction reqs arbitrary: es) (auto split: option.splits if_splits)

lemma cache_match_put_other:
  "k \<noteq> req \<Longrightarrow> cache_match (cache_put req r c) k = cache_match c k"
proof -
  assume "k \<noteq> req"
  then have "map_of (filter (\<lambda>e. fst e \<noteq> req) c) k = map_of c k"
    by (induction c) auto
  with \<open>k \<noteq> req\<close> show ?thesis
    by (simp add: cache_match_def cache_put_def map_add_def split: option.splits)
qed

lemma cache_match_fold_put_in:
  assumes "name \<in> set (caches_keys cs)"
  shows "cache_match (entries name (fold (\<lambda>e. put_in name (fst e) (snd e)) es cs)) k =
     (case map_of (rev es) k of
        Some r \<Rightarrow> Some r
      | None \<Rightarrow> cache_match (entries name cs) k)"
  using assms
proof (induction es arbitrary: cs)
  case Nil
  then show ?case by simp
next
  case (Cons e es)
  let ?cs = "put_in name (fst e) (snd e) cs"
  from Cons.prems have keys: "name \<in> set (caches_keys ?cs)"
    by (simp add: keys_put_in)
  have step: "cache_match (entries name ?cs) k =
      (if k = fst e then Some (snd e) else cache_match (entries name cs) k)"
    using Cons.prems by (simp add: entries_put_in cache_match_put cache_match_put_other)
  show ?case
    using Cons.IH [OF keys] step
    by (cases e) (auto simp: map_add_def split: option.splits)
qed

lemma fetch_all_Some_ok:
  "fetch_all p reqs = Some es \<Longrightarrow> req \<in> set reqs \<Longrightarrow>
     \<exists>r. fetch p req = Some r \<and> ok_status r \<and> status r \<noteq> 206"
  by (induction reqs arbitrary: es) (auto split: option.splits if_splits)

lemma map_of_rev_graph:
  "x \<in> set xs \<Longrightarrow> map_of (rev (map (\<lambda>x. (x, f x)) xs)) x = Some (f x)"
proof -
  assume "x \<in> set xs"
  then have "x \<in> fst ` set (rev (map (\<lambda>x. (x, f x)) xs))"
    by force
  then obtain v where v: "map_of (rev (map (\<lambda>x. (x, f x)) xs)) x = Some v"
    by (metis map_of_eq_None_iff not_Some_eq)
  then have "(x, v) \<in> set (rev (map (\<lambda>x. (x, f x)) xs))"
    by (rule map_of_SomeD)
  then have "v = f x" by auto
  with v show ?thesis by simp
qed

lemma install_Rejected:
  assumes "fst (install p so cs) = Rejected"
  shows "snd (install p so cs) = caches_open STATIC_CACHE cs"
  using assms by (simp add: install_def Let_def split: option.splits)

lemma install_Resolved:
  assumes "fst (install p so cs) = Resolved" and "a \<in> set STATIC_ASSETS"
  shows "\<exists>r. fetch p (asset_request so a) = Some r
      \<and> cache_match (entries STATIC_CACHE (snd (install p so cs))) (asset_request so a) = Some r"
proof -
  let ?reqs = "map (asset_request so) STATIC_ASSETS"
  let ?cs = "caches_open STATIC_CACHE cs"
  from assms(1) obtain cs' where
    added: "cache_addAll p STATIC_CACHE ?reqs ?cs = Some cs'" and
    cs': "snd (install p so cs) = cs'"
    by (auto simp: install_def Let_def split: option.splits)
  from added obtain es where
    es: "fetch_all p ?reqs = Some es" and
    fold: "cs' = fold (\<lambda>e. put_in STATIC_CACHE (fst e) (snd e)) es ?cs"
    by (auto simp: cache_addAll_def split: option.splits if_splits)
  have graph: "es = map (\<lambda>req. (req, the (fetch p req))) ?reqs"
    using es by (rule fetch_all_Some)
  have mem: "asset_request so a \<in> set ?reqs"
    using assms(2) by simp
  from fetch_all_Some_ok [OF es mem]
  obtain r where r: "fetch p (asset_request so a) = Some r" by blast
  have "map_of (rev es) (asset_request so a) = Some (the (fetch p (asset_request so a)))"
    unfolding graph using mem by (rule map_of_rev_graph)
  with r have "map_of (rev es) (asset_request so a) = Some r" by simp
  then have "cache_match (entries STATIC_CACHE cs') (asset_request so a) = Some r"
    unfolding fold by (simp add: cache_match_fold_put_in keys_caches_open)
  with r cs' show ?thesis by simp
qed

lemma install_failure:
  assumes "a \<in> set STATIC_ASSETS"
    and "fetch p (asset_request so a) = None
      \<or> (\<exists>r. fetch p (asset_request so a) = Some r
            \<and> (\<not> ok_status r \<or> status r = 206 \<or> \<not> put_ok p (asset_request so a) r))"
  shows "fst (install p so cs) = Rejected"
proof -
  let ?reqs = "map (asset_request so) STATIC_ASSETS"
  have mem: "asset_request so a \<in> set ?reqs"
    using assms(1) by simp
  have "cache_addAll p STATIC_CACHE ?reqs (caches_open STATIC_CACHE cs) = None"
  proof (cases "fetch_all p ?reqs")
    case None
    then show ?thesis by (simp add: cache_addAll_def)
  next
    case (Some es)
    then have graph: "es = map (\<lambda>req. (req, the (fetch p req))) ?reqs"
      by (rule fetch_all_Some)
    from fetch_all_Some_ok [OF Some mem]
    obtain r where r: "fetch p (asset_request so a) = Some r"
      and ok: "ok_status r" "status r \<noteq> 206"
      by blast
    with assms(2) have refused: "\<not> put_ok p (asset_request so a) r"
      by auto
    from mem r have "(asset_request so a, r) \<in> set es"
      unfolding graph by force
    with refused have "\<not> list_all (\<lambda>e. put_ok p (fst e) (snd e)) es"
      by (force simp: list_all_iff)
    with Some show ?thesis by (simp add: cache_addAll_def)
  qed
  then show ?thesis by (simp add: install_def Let_def)
qed

text \<open>
  Claim C7. Install populates the static cache with all the listed resources or with
  none of them: when the fetch of one listed resource fails (no answer, or a status that
  \<^verbatim>\<open>addAll\<close> refuses) or the storage refuses its entry, the promise rejects and the
  static cache has the entries it had before; when the promise resolves, every listed
  resource is in the static cache.
\<close>

theorem install_all_or_nothing:
  "((\<exists>a\<in>set STATIC_ASSETS.
        fetch p (asset_request so a) = None
        \<or> (\<exists>r. fetch p (asset_request so a) = Some r
              \<and> (\<not> ok_status r \<or> status r = 206 \<or> \<not> put_ok p (asset_request so a) r)))
      \<longrightarrow> fst (install p so cs) = Rejected)
   \<and> (fst (install p so cs) = Rejected \<longrightarrow>
        snd (install p so cs) = caches_open STATIC_CACHE cs
        \<and> entries STATIC_CACHE (snd (install p so cs)) = entries STATIC_CACHE cs)
   \<and> (fst (install p so cs) = Resolved \<longrightarrow>
        (\<forall>a\<in>set STATIC_ASSETS. \<exists>r. fetch p (asset_request so a) = Some r
            \<and> cache_match (entries STATIC_CACHE (snd (install p so cs))) (asset_request so a)
                = Some r))"
  using install_failure [of _ p so cs] install_Rejected [of p so cs]
    install_Resolved [of p so cs] entries_caches_open [of STATIC_CACHE STATIC_CACHE cs]
  by (intro conjI impI ballI) auto

text \<open>
  Two instances over an empty storage: a network that has no \<^verbatim>\<open>/favicon.png\<close>, and
  one that answers every request.
\<close>

theorem install_all_or_nothing_witness:
  "''/favicon.png'' \<in> set STATIC_ASSETS
   \<and> fetch no_favicon (asset_request ''https://storymap.example'' ''/favicon.png'') = None
   \<and> install no_favicon ''https://storymap.example'' [] = (Rejected, [(STATIC_CACHE, [])])
   \<and> ''/index.html'' \<in> set STATIC_ASSETS
   \<and> fst (install (online script_response) ''https://storymap.example'' []) = Resolved
   \<and> cache_match
        (entries STATIC_CACHE (snd (install (online script_response) ''https://storymap.example'' [])))
        (asset_request ''https://storymap.example'' ''/index.html'') = Some script_response"
proof -
  let ?so = "''https://storymap.example''"
  have h1: "''/favicon.png'' \<in> set STATIC_ASSETS"
    and h2: "fetch no_favicon (asset_request ?so ''/favicon.png'') = None"
    and h3: "''/index.html'' \<in> set STATIC_ASSETS"
    and h4: "fetch (online script_response) (asset_request ?so ''/index.html'') = Some script_response"
    by (simp_all add: STATIC_ASSETS_def no_favicon_def asset_request_def online_def)
  have h5: "fst (install (online script_response) ?so []) = Resolved"
    by (simp add: install_def cache_addAll_def STATIC_ASSETS_def online_def script_response_def
        ok_status_def caches_open_def caches_keys_def Let_def)
  have open_empty: "caches_open STATIC_CACHE [] = [(STATIC_CACHE, [])]"
    by (simp add: caches_open_def caches_keys_def)
  note t0 = install_all_or_nothing [of no_favicon ?so "[]"]
  note t1 = install_all_or_nothing [of "online script_response" ?so "[]"]
  from t0 h1 h2 have rej: "fst (install no_favicon ?so []) = Rejected"
    by blast
  with t0 have "snd (install no_favicon ?so []) = caches_open STATIC_CACHE []"
    by blast
  with rej open_empty have a: "install no_favicon ?so [] = (Rejected, [(STATIC_CACHE, [])])"
    by (simp add: prod_eq_iff)
  from t1 h3 h4 h5 have b: "cache_match
        (entries STATIC_CACHE (snd (install (online script_response) ?so [])))
        (asset_request ?so ''/index.html'') = Some script_response"
    by fastforce
  from h1 h2 a h3 h5 b show ?thesis by simp
qed

section \<open>Properties of the push handler\<close>

lemma get_prop_object:
  "get_prop (JObject kvs) k = Inr (case map_of kvs k of None \<Rightarrow> JUndefined | Some x \<Rightarrow> x)"
  by (simp add: get_prop_def)

lemma parsed_failure:
  "parse payload = None \<Longrightarrow> parsed_notificationData parse payload = Inl SyntaxError"
  by (simp add: parsed_notificationData_def bind_def)

lemma parsed_title_body:
  assumes "parse payload = Some (JObject [(''title'', JString T), (''body'', JString B)])"
    and "T \<noteq> []" and "B \<noteq> []"
  shows "parsed_notificationData parse payload =
     Inr \<lparr> title = JString T, body = JString B, icon = JString ''/favicon.png'',
           badge = JString ''/favicon.png'', image = JNull, tag = JString ''new-story'',
           data = JObject [], requireInteraction = False \<rparr>"
  using assms
  by (simp add: parsed_notificationData_def bind_def get_prop_object js_or_def)

text \<open>
  Claim C8, amended. Every push event shows exactly one notification. A payload that
  decodes to the object with \<^verbatim>\<open>title\<close> T and \<^verbatim>\<open>body\<close> B, both non-empty strings,
  is shown with title T, body B and the default icon and badge; no payload is shown
  as the default notification; a payload that does not decode is shown with the
  default title and with its text as the body when the text is not empty, with the
  default body when it is.
\<close>

theorem push_shows_notification:
  "length (push_handler parse now event_data) = 1
   \<and> (parse payload = Some (JObject [(''title'', JString T), (''body'', JString B)])
        \<and> T \<noteq> [] \<and> B \<noteq> [] \<longrightarrow>
        (let n = hd (push_handler parse now (Some payload))
         in title n = JString T \<and> notificationData.body n = JString B
            \<and> icon n = JString ''/favicon.png'' \<and> badge n = JString ''/favicon.png''))
   \<and> (let n = hd (push_handler parse now None)
       in title n = JString ''Cerita Baru''
          \<and> notificationData.body n = JString ''Ada cerita baru yang ditambahkan!''
          \<and> icon n = JString ''/favicon.png'' \<and> badge n = JString ''/favicon.png'')
   \<and> (parse payload = None \<longrightarrow>
        (let n = hd (push_handler parse now (Some payload))
         in title n = JString ''Cerita Baru''
            \<and> notificationData.body n =
                (if payload \<noteq> [] then JString payload
                 else JString ''Ada cerita baru yang ditambahkan!'')))"
proof -
  have shown: "length (push_handler parse now event_data) = 1"
    by (simp add: push_handler_def Let_def)
  have decoded: "title n = JString T \<and> notificationData.body n = JString B
      \<and> icon n = JString ''/favicon.png'' \<and> badge n = JString ''/favicon.png''"
    if "parse payload = Some (JObject [(''title'', JString T), (''body'', JString B)])"
      "T \<noteq> []" "B \<noteq> []" "n = hd (push_handler parse now (Some payload))" for n
    using that parsed_title_body [of parse payload T B]
    by (simp add: push_handler_def push_notificationData_def Let_def)
  have absent: "title n = JString ''Cerita Baru''
      \<and> notificationData.body n = JString ''Ada cerita baru yang ditambahkan!''
      \<and> icon n = JString ''/favicon.png'' \<and> badge n = JString ''/favicon.png''"
    if "n = hd (push_handler parse now None)" for n
    using that
    by (simp add: push_handler_def push_notificationData_def default_notificationData_def Let_def)
  have flat: "title n = JString ''Cerita Baru''
      \<and> notificationData.body n =
          (if payload \<noteq> [] then JString payload
           else JString ''Ada cerita baru yang ditambahkan!'')"
    if "parse payload = None" "n = hd (push_handler parse now (Some payload))" for n
    using that parsed_failure [of parse payload]
    by (simp add: push_handler_def push_notificationData_def default_notificationData_def Let_def)
  from shown decoded absent flat show ?thesis
    by (simp add: Let_def)
qed

text \<open>
  Claim C8 as stated says that a payload that fails to decode is used as the body. The
  empty text fails to decode and is not: line 138 tests it, and the body stays the
  default one.
\<close>

theorem push_empty_text_counterexample:
  "decode_titled '''' = None
   \<and> notificationData.body (hd (push_handler decode_titled 0 (Some '''')))
       = JString ''Ada cerita baru yang ditambahkan!''
   \<and> notificationData.body (hd (push_handler decode_titled 0 (Some ''''))) \<noteq> JString ''''"
  by (simp add: decode_titled_def titled_payload_def push_handler_def push_notificationData_def
      parsed_notificationData_def bind_def default_notificationData_def Let_def)

text \<open>Instances: the payload of the claim, a text that is no JSON, and no payload.\<close>

theorem push_shows_notification_witness:
  "decode_titled titled_payload =
     Some (JObject [(''title'', JString ''T''), (''body'', JString ''B'')])
   \<and> title (hd (push_handler decode_titled 0 (Some titled_payload))) = JString ''T''
   \<and> notificationData.body (hd (push_handler decode_titled 0 (Some titled_payload))) = JString ''B''
   \<and> icon (hd (push_handler decode_titled 0 (Some titled_payload))) = JString ''/favicon.png''
   \<and> badge (hd (push_handler decode_titled 0 (Some titled_payload))) = JString ''/favicon.png''
   \<and> decode_titled ''story 12 was added'' = None
   \<and> notificationData.body (hd (push_handler decode_titled 0 (Some ''story 12 was added'')))
       = JString ''story 12 was added''
   \<and> title (hd (push_handler decode_titled 0 None)) = JString ''Cerita Baru''
   \<and> length (push_handler decode_titled 0 (Some ''story 12 was added'')) = 1"
proof -
  have h1: "decode_titled titled_payload =
     Some (JObject [(''title'', JString ''T''), (''body'', JString ''B'')])"
    by (simp add: decode_titled_def)
  have h2: "decode_titled ''story 12 was added'' = None"
    by (simp add: decode_titled_def titled_payload_def)
  note decoded = push_shows_notification [where parse = decode_titled and now = 0 and payload = titled_payload
      and T = "''T''" and B = "''B''" and event_data = None]
  note flat = push_shows_notification [where parse = decode_titled and now = 0 and payload = "''story 12 was added''"
      and event_data = "Some ''story 12 was added''"]
  from decoded h1 have a: "title (hd (push_handler decode_titled 0 (Some titled_payload))) = JString ''T''
      \<and> notificationData.body (hd (push_handler decode_titled 0 (Some titled_payload))) = JString ''B''
      \<and> icon (hd (push_handler decode_titled 0 (Some titled_payload))) = JString ''/favicon.png''
      \<and> badge (hd (push_handler decode_titled 0 (Some titled_payload))) = JString ''/favicon.png''
      \<and> title (hd (push_handler decode_titled 0 None)) = JString ''Cerita Baru''"
    by (simp add: Let_def)
  from flat h2 have b: "notificationData.body (hd (push_handler decode_titled 0 (Some ''story 12 was added'')))
       = JString ''story 12 was added''
      \<and> length (push_handler decode_titled 0 (Some ''story 12 was added'')) = 1"
    by (simp add: Let_def)
  from h1 h2 a b show ?thesis by simp
qed

section \<open>Properties of the replay\<close>

lemma store_put_existing:
  assumes "sorted_wrt (<) (map key store)" and "key v \<in> key ` set store"
  shows "store_put v store = map (\<lambda>g. if key g = key v then v else g) store"
  using assms
proof (induction store)
  case Nil
  then show ?case by simp
next
  case (Cons x xs)
  from Cons.prems(1) have above: "\<forall>g\<in>set xs. key x < key g"
    and sorted: "sorted_wrt (<) (map key xs)"
    by simp_all
  show ?case
  proof (cases "key v = key x")
    case True
    have "key g \<noteq> key v" if "g \<in> set xs" for g
    proof -
      from above that have "key x < key g" by (rule bspec)
      with True show ?thesis by (simp only: less_imp_neq not_sym)
    qed
    then have "map (\<lambda>g. if key g = key v then v else g) xs = map (\<lambda>g. g) xs"
      by (intro map_cong [OF refl]) (simp only: if_False)
    with True show ?thesis by (simp only: store_put.simps list.map if_True map_ident simp_thms)
  next
    case False
    from Cons.prems(2) have "key v = key x \<or> key v \<in> key ` set xs"
      by (simp only: list.set image_insert insert_iff)
    with False have mem: "key v \<in> key ` set xs" by blast
    then obtain g where "g \<in> set xs" "key v = key g" by (rule imageE)
    with above have "key x < key v" by (simp only:)
    then have nless: "\<not> key v < key x" by (rule less_not_sym)
    from False have ne: "key x \<noteq> key v" by (rule not_sym)
    have "store_put v (x # xs) = x # store_put v xs"
      using False nless by (simp only: store_put.simps if_False)
    also have "\<dots> = x # map (\<lambda>g. if key g = key v then v else g) xs"
      using Cons.IH [OF sorted mem] by (simp only:)
    also have "\<dots> = map (\<lambda>g. if key g = key v then v else g) (x # xs)"
      using ne by (simp only: list.map if_False)
    finally show ?thesis .
  qed
qed

lemma key_inj:
  fixes store :: "('k::linorder, 'a) favorite list"
  assumes "sorted_wrt (<) (map key store)"
    and "f \<in> set store" and "g \<in> set store" and "key f = key g"
  shows "f = g"
proof -
  from assms(1) have "sorted (map key store) \<and> distinct (map key store)"
    by (simp only: strict_sorted_iff)
  then have "distinct (map key store)"
    by (rule conjunct2)
  then have "distinct store \<and> inj_on key (set store)"
    by (simp only: distinct_map)
  then have "inj_on key (set store)"
    by (rule conjunct2)
  from this assms(4) assms(2) assms(3) show ?thesis
    by (rule inj_onD)
qed

lemma fold_store_put:
  assumes "sorted_wrt (<) (map key store)"
    and "set ws \<subseteq> (\<lambda>g. g\<lparr>synced := True\<rparr>) ` set store"
  shows "fold store_put ws store =
     map (\<lambda>g. if key g \<in> key ` set ws then g\<lparr>synced := True\<rparr> else g) store"
  using assms(2)
proof (induction ws rule: rev_induct)
  case Nil
  then show ?case by simp
next
  case (snoc w ws)
  let ?h = "\<lambda>g. if key g \<in> key ` set ws then g\<lparr>synced := True\<rparr> else g"
  from snoc.prems have "set ws \<subseteq> (\<lambda>g. g\<lparr>synced := True\<rparr>) ` set store"
    by simp
  then have IH: "fold store_put ws store = map ?h store"
    by (rule snoc.IH)
  have key_h: "key (?h g) = key g" for g
    by simp
  have keys: "map key (map ?h store) = map key store"
    by (simp add: o_def)
  from snoc.prems obtain g0 where g0: "g0 \<in> set store" "w = g0\<lparr>synced := True\<rparr>"
    by auto
  from g0 have "key w \<in> set (map key store)" by simp
  then have "key w \<in> set (map key (map ?h store))"
    by (simp only: keys)
  then have mem: "key w \<in> key ` set (map ?h store)"
    by (simp only: set_map)
  have sorted: "sorted_wrt (<) (map key (map ?h store))"
    using assms(1) by (simp only: keys)
  have eqn: "(if key (?h g) = key w then w else ?h g) =
      (if key g \<in> key ` set (ws @ [w]) then g\<lparr>synced := True\<rparr> else g)"
    if "g \<in> set store" for g
  proof (cases "key g = key w")
    case True
    with g0 have "key g = key g0" by simp
    with assms(1) that g0(1) have "g = g0" by (rule key_inj)
    with True g0 show ?thesis by simp
  next
    case False
    then show ?thesis by auto
  qed
  have "fold store_put (ws @ [w]) store = store_put w (map ?h store)"
    by (simp only: fold_append fold_simps o_apply IH)
  also have "\<dots> = map (\<lambda>g. if key g = key w then w else g) (map ?h store)"
    using sorted mem by (rule store_put_existing)
  also have "\<dots> = map (\<lambda>g. if key (?h g) = key w then w else ?h g) store"
    by (simp only: map_map o_def)
  also have "\<dots> = map (\<lambda>g. if key g \<in> key ` set (ws @ [w]) then g\<lparr>synced := True\<rparr> else g) store"
    by (rule map_cong [OF refl]) (rule eqn)
  finally show ?case .
qed

lemma replay_marks_all:
  fixes store :: "('k::linorder, 'a) favorite list"
  assumes "sorted_wrt (<) (map key store)"
  shows "fold store_put (map (\<lambda>f. f\<lparr>synced := True\<rparr>) (filter (\<lambda>f. \<not> synced f) store)) store =
     map (\<lambda>f. f\<lparr>synced := True\<rparr>) store"
proof -
  let ?ws = "map (\<lambda>f. f\<lparr>synced := True\<rparr>) (filter (\<lambda>f. \<not> synced f) store)"
  have "set ?ws \<subseteq> (\<lambda>g. g\<lparr>synced := True\<rparr>) ` set store" by auto
  with assms have "fold store_put ?ws store =
      map (\<lambda>g. if key g \<in> key ` set ?ws then g\<lparr>synced := True\<rparr> else g) store"
    by (rule fold_store_put)
  also have "\<dots> = map (\<lambda>f. f\<lparr>synced := True\<rparr>) store"
  proof (rule map_cong [OF refl])
    fix g assume "g \<in> set store"
    show "(if key g \<in> key ` set ?ws then g\<lparr>synced := True\<rparr> else g) = g\<lparr>synced := True\<rparr>"
    proof (cases "synced g")
      case True
      then show ?thesis by simp
    next
      case False
      with \<open>g \<in> set store\<close> have "g \<in> set (filter (\<lambda>f. \<not> synced f) store)"
        by simp
      then have "g\<lparr>synced := True\<rparr> \<in> set ?ws"
        by (simp only: set_map) (rule imageI)
      then have "key (g\<lparr>synced := True\<rparr>) \<in> key ` set ?ws"
        by (rule imageI)
      then have "key g \<in> key ` set ?ws" by simp
      then show ?thesis by (simp only: if_True)
    qed
  qed
  finally show ?thesis .
qed

lemma synced_kept:
  "synced f \<Longrightarrow> f \<in> set store \<Longrightarrow> f \<in> set (map (\<lambda>f. f\<lparr>synced := True\<rparr>) store)"
proof -
  assume "synced f" and "f \<in> set store"
  from \<open>synced f\<close> have "f\<lparr>synced := True\<rparr> = f" by simp
  with \<open>f \<in> set store\<close> show ?thesis
    by (metis (mono_tags, lifting) image_eqI set_map)
qed

text \<open>
  Claim C9. The handler starts the replay for the tag \<^verbatim>\<open>sync-stories\<close> and does
  nothing for any other tag. With a database that opens and reads, a replay over
  a store without unsynced records resolves, puts nothing and leaves the store as it is.
  With a database that also completes the write, a replay over a store (its keys in
  strictly ascending order) resolves with one put per unsynced record, and afterwards
  each record is the record it was with \<^verbatim>\<open>synced\<close> true. In every case a record
  that was synced is in the store afterwards, unchanged.
\<close>

theorem sync_replay_marks_unsynced:
  fixes store :: "('k::linorder, 'a) favorite list"
  shows "(event_tag \<noteq> ''sync-stories'' \<longrightarrow> sync_handler db event_tag store = None)
   \<and> sync_handler db ''sync-stories'' store = Some (syncStories db store)
   \<and> (open_ok db \<and> getAll_ok db \<and> filter (\<lambda>f. \<not> synced f) store = [] \<longrightarrow>
        syncStories db store = \<lparr> promise = Resolved, favorites = store, puts = [] \<rparr>)
   \<and> (sorted_wrt (<) (map key store) \<and> open_ok db \<and> getAll_ok db \<and> write_ok db \<longrightarrow>
        promise (syncStories db store) = Resolved
        \<and> favorites (syncStories db store) = map (\<lambda>f. f\<lparr>synced := True\<rparr>) store
        \<and> puts (syncStories db store) =
             map (\<lambda>f. f\<lparr>synced := True\<rparr>) (filter (\<lambda>f. \<not> synced f) store)
        \<and> length (puts (syncStories db store)) = length (filter (\<lambda>f. \<not> synced f) store))
   \<and> (sorted_wrt (<) (map key store) \<longrightarrow>
        (\<forall>f\<in>set store. synced f \<longrightarrow> f \<in> set (favorites (syncStories db store))))"
proof -
  have ignored: "event_tag \<noteq> ''sync-stories'' \<longrightarrow> sync_handler db event_tag store = None"
    and started: "sync_handler db ''sync-stories'' store = Some (syncStories db store)"
    by (simp_all add: sync_handler_def)
  have no_write: "syncStories db store = \<lparr> promise = Resolved, favorites = store, puts = [] \<rparr>"
    if "open_ok db" "getAll_ok db" "filter (\<lambda>f. \<not> synced f) store = []"
    using that by (simp add: syncStories_def)
  have none_left: "map (\<lambda>f. f\<lparr>synced := True\<rparr>) store = store"
    if "filter (\<lambda>f. \<not> synced f) store = []"
  proof -
    from that have "\<forall>f\<in>set store. synced f"
      by (simp add: filter_empty_conv)
    then show ?thesis by (simp add: map_idI)
  qed
  have replayed: "promise (syncStories db store) = Resolved
        \<and> favorites (syncStories db store) = map (\<lambda>f. f\<lparr>synced := True\<rparr>) store
        \<and> puts (syncStories db store) =
             map (\<lambda>f. f\<lparr>synced := True\<rparr>) (filter (\<lambda>f. \<not> synced f) store)
        \<and> length (puts (syncStories db store)) = length (filter (\<lambda>f. \<not> synced f) store)"
    if sorted: "sorted_wrt (<) (map key store)" and ok: "open_ok db" "getAll_ok db" "write_ok db"
  proof (cases "filter (\<lambda>f. \<not> synced f) store = []")
    case True
    with ok none_left show ?thesis
      by (simp add: syncStories_def)
  next
    case False
    with ok replay_marks_all [OF sorted] show ?thesis
      by (simp add: syncStories_def Let_def)
  qed
  have kept: "f \<in> set (favorites (syncStories db store))"
    if sorted: "sorted_wrt (<) (map key store)" and f: "f \<in> set store" "synced f" for f
  proof -
    have "favorites (syncStories db store) = store
        \<or> favorites (syncStories db store) = map (\<lambda>f. f\<lparr>synced := True\<rparr>) store"
      using replay_marks_all [OF sorted]
      by (simp add: syncStories_def Let_def)
    with f synced_kept [of f store] show ?thesis by auto
  qed
  from ignored started no_write replayed kept show ?thesis
    by blast
qed

text \<open>
  Instances: another tag, a store with nothing to replay, and a store of three
  records with two of them unsynced.
\<close>

theorem sync_replay_marks_unsynced_witness:
  "''periodic-refresh'' \<noteq> ''sync-stories''
   \<and> sync_handler working_db ''periodic-refresh'' queued = None
   \<and> open_ok working_db \<and> getAll_ok working_db \<and> write_ok working_db
   \<and> filter (\<lambda>f. \<not> synced f) all_synced = []
   \<and> syncStories working_db all_synced =
        \<lparr> promise = Resolved, favorites = all_synced, puts = [] \<rparr>
   \<and> sorted_wrt (<) (map key queued)
   \<and> length (filter (\<lambda>f. \<not> synced f) queued) = 2
   \<and> promise (syncStories working_db queued) = Resolved
   \<and> favorites (syncStories working_db queued) = all_synced
   \<and> length (puts (syncStories working_db queued)) = 2"
proof -
  have h1: "''periodic-refresh'' \<noteq> ''sync-stories''"
    by simp
  have h2: "open_ok working_db" "getAll_ok working_db" "write_ok working_db"
    by (simp_all add: working_db_def)
  have h3: "filter (\<lambda>f. \<not> synced f) all_synced = []"
    by (simp add: all_synced_def)
  have h4: "sorted_wrt (<) (map key queued)"
    by (simp add: queued_def)
  have h5: "length (filter (\<lambda>f. \<not> synced f) queued) = 2"
    by (simp add: queued_def)
  have h6: "map (\<lambda>f. f\<lparr>synced := True\<rparr>) queued = all_synced"
    by (simp add: queued_def all_synced_def)
  note ignored = sync_replay_marks_unsynced [of "''periodic-refresh''" working_db queued]
  note clean = sync_replay_marks_unsynced [of "''periodic-refresh''" working_db all_synced]
  from ignored h1 have a: "sync_handler working_db ''periodic-refresh'' queued = None"
    by blast
  from clean h2 h3 have b: "syncStories working_db all_synced =
      \<lparr> promise = Resolved, favorites = all_synced, puts = [] \<rparr>"
    by blast
  from ignored h2 h4 have c: "promise (syncStories working_db queued) = Resolved
      \<and> favorites (syncStories working_db queued) = map (\<lambda>f. f\<lparr>synced := True\<rparr>) queued
      \<and> length (puts (syncStories working_db queued)) =
          length (filter (\<lambda>f. \<not> synced f) queued)"
    by blast
  from h1 a h2 h3 b h4 h5 c h6 show ?thesis
    by simp
qed

section \<open>Properties of the storages the worker produces\<close>

lemma inv_empty: "api_only_in_dynamic []"
  by (simp add: api_only_in_dynamic_def caches_keys_def)

lemma inv_caches_open:
  "api_only_in_dynamic cs \<Longrightarrow> api_only_in_dynamic (caches_open name cs)"
  by (auto simp: api_only_in_dynamic_def caches_open_def caches_keys_def)

lemma inv_put_in:
  assumes "api_only_in_dynamic cs"
    and "name = DYNAMIC_CACHE \<or> origin (url req) \<noteq> API_ORIGIN"
  shows "api_only_in_dynamic (put_in name req r cs)"
proof -
  have keys: "distinct (caches_keys (put_in name req r cs))"
    using assms(1) by (simp add: keys_put_in api_only_in_dynamic_def)
  have "origin (url (fst e)) \<noteq> API_ORIGIN"
    if "nc \<in> set (put_in name req r cs)" "fst nc \<noteq> DYNAMIC_CACHE" "e \<in> set (snd nc)"
    for nc e
  proof -
    from that(1)
    have "nc \<in> (\<lambda>nc. if fst nc = name then (fst nc, cache_put req r (snd nc)) else nc) ` set cs"
      by (simp add: put_in_def)
    then obtain nc0 where nc: "nc = (if fst nc0 = name then (fst nc0, cache_put req r (snd nc0)) else nc0)"
      and nc0: "nc0 \<in> set cs"
      by (rule imageE)
    show ?thesis
    proof (cases "fst nc0 = name")
      case True
      with nc that(2) have other: "name \<noteq> DYNAMIC_CACHE" by auto
      from True nc that(3) have "e \<in> set (cache_put req r (snd nc0))" by simp
      then have "e = (req, r) \<or> e \<in> set (snd nc0)" by (rule in_cache_putD)
      then show ?thesis
      proof
        assume "e = (req, r)"
        with other assms(2) show ?thesis by simp
      next
        assume "e \<in> set (snd nc0)"
        with assms(1) nc0 True other show ?thesis
          by (auto simp: api_only_in_dynamic_def)
      qed
    next
      case False
      with nc have "nc = nc0" by simp
      with assms(1) nc0 that(2,3) show ?thesis
        by (auto simp: api_only_in_dynamic_def)
    qed
  qed
  with keys show ?thesis
    by (auto simp: api_only_in_dynamic_def)
qed

lemma inv_open_then_put:
  assumes "api_only_in_dynamic cs"
    and "name = DYNAMIC_CACHE \<or> origin (url req) \<noteq> API_ORIGIN"
  shows "api_only_in_dynamic (open_then_put p name req r cs)"
  using assms by (simp add: open_then_put_def Let_def inv_caches_open inv_put_in)

lemma inv_fetch_handler:
  "api_only_in_dynamic cs \<Longrightarrow> api_only_in_dynamic (storage (fetch_handler p cs req))"
  by (simp add: fetch_handler_def inv_open_then_put split: option.splits)

lemma inv_fold_put_in:
  assumes "api_only_in_dynamic cs"
    and "\<forall>e\<in>set es. origin (url (fst e)) \<noteq> API_ORIGIN"
  shows "api_only_in_dynamic (fold (\<lambda>e. put_in name (fst e) (snd e)) es cs)"
  using assms by (induction es arbitrary: cs) (simp_all add: inv_put_in)

lemma inv_install:
  assumes "self_origin \<noteq> API_ORIGIN" and "api_only_in_dynamic cs"
  shows "api_only_in_dynamic (snd (install p self_origin cs))"
proof (cases "cache_addAll p STATIC_CACHE (map (asset_request self_origin) STATIC_ASSETS)
    (caches_open STATIC_CACHE cs)")
  case None
  with assms(2) show ?thesis
    by (simp add: install_def Let_def inv_caches_open)
next
  case (Some cs')
  then obtain es where es: "fetch_all p (map (asset_request self_origin) STATIC_ASSETS) = Some es"
    and cs': "cs' = fold (\<lambda>e. put_in STATIC_CACHE (fst e) (snd e)) es (caches_open STATIC_CACHE cs)"
    by (auto simp: cache_addAll_def split: option.splits if_splits)
  from fetch_all_Some [OF es] assms(1)
  have "\<forall>e\<in>set es. origin (url (fst e)) \<noteq> API_ORIGIN"
    by (auto simp: asset_request_def)
  with assms(2) have "api_only_in_dynamic cs'"
    unfolding cs' by (intro inv_fold_put_in inv_caches_open)
  with Some show ?thesis
    by (simp add: install_def Let_def)
qed

lemma inv_activate:
  assumes "api_only_in_dynamic cs"
  shows "api_only_in_dynamic (activate cs)"
proof -
  let ?kept = "filter (\<lambda>nc. fst nc = STATIC_CACHE \<or> fst nc = DYNAMIC_CACHE) cs"
  from assms have "distinct (caches_keys ?kept)"
    by (simp add: api_only_in_dynamic_def caches_keys_def distinct_map_filter)
  moreover have "origin (url (fst e)) \<noteq> API_ORIGIN"
    if "nc \<in> set ?kept" "fst nc \<noteq> DYNAMIC_CACHE" "e \<in> set (snd nc)" for nc e
  proof -
    from that(1) have "nc \<in> set cs" by simp
    with assms that(2,3) show ?thesis
      unfolding api_only_in_dynamic_def by blast
  qed
  ultimately show ?thesis
    unfolding activate_filter api_only_in_dynamic_def by blast
qed

lemma reachable_inv:
  assumes "self_origin \<noteq> API_ORIGIN" and "reachable self_origin cs"
  shows "api_only_in_dynamic cs"
  using assms(2)
proof (induction rule: reachable.induct)
  case 1
  show ?case by (rule inv_empty)
next
  case (2 cs p)
  with assms(1) show ?case by (simp add: inv_install)
next
  case (3 cs)
  then show ?case by (simp add: inv_activate)
next
  case (4 cs p req)
  then show ?case by (simp add: inv_fetch_handler)
qed

lemma holder_is_dynamic:
  assumes "api_only_in_dynamic cs" and "origin (url req) = API_ORIGIN"
    and "nc \<in> set cs" and "cache_match (snd nc) req \<noteq> None"
  shows "fst nc = DYNAMIC_CACHE \<and> entries DYNAMIC_CACHE cs = snd nc"
proof -
  from assms(4) obtain r where "map_of (snd nc) req = Some r"
    by (auto simp: cache_match_def)
  then have mem: "(req, r) \<in> set (snd nc)" by (rule map_of_SomeD)
  have name: "fst nc = DYNAMIC_CACHE"
  proof (rule ccontr)
    assume "fst nc \<noteq> DYNAMIC_CACHE"
    with assms(1,3) mem have "origin (url (fst (req, r))) \<noteq> API_ORIGIN"
      unfolding api_only_in_dynamic_def by blast
    with assms(2) show False by simp
  qed
  from assms(1) have "distinct (map fst cs)"
    by (simp add: api_only_in_dynamic_def caches_keys_def)
  moreover from assms(3) name have "(DYNAMIC_CACHE, snd nc) \<in> set cs"
    by (metis prod.collapse)
  ultimately have "map_of cs DYNAMIC_CACHE = Some (snd nc)"
    by (rule map_of_is_SomeI)
  with name show ?thesis by (simp add: entries_def)
qed

text \<open>
  Claim C3. The worker is served from an origin other than the API's, and the storage is
  one that its handlers have produced. For a GET request to the API origin whose fetch
  fails, when a cache holds a prior entry for the request, that entry is the dynamic
  cache's: the handler answers with it, unchanged and with no check of its age, and
  leaves the storage as it is.
\<close>

theorem fetch_api_fallback_dynamic_entry:
  assumes "self_origin \<noteq> API_ORIGIN" and "reachable self_origin cs"
    and "method req = ''GET''" and "origin (url req) = API_ORIGIN"
    and "fetch p req = None"
    and "\<exists>nc\<in>set cs. cache_match (snd nc) req \<noteq> None"
  shows "\<exists>r. cache_match (entries DYNAMIC_CACHE cs) req = Some r
           \<and> outcome (fetch_handler p cs req) = Responded r
           \<and> storage (fetch_handler p cs req) = cs
           \<and> put_calls (fetch_handler p cs req) = []"
proof -
  from assms(1,2) have inv: "api_only_in_dynamic cs" by (rule reachable_inv)
  from assms(6) obtain nc where nc: "nc \<in> set cs" "cache_match (snd nc) req \<noteq> None"
    by blast
  with inv assms(4) have dyn: "entries DYNAMIC_CACHE cs = snd nc"
    using holder_is_dynamic by blast
  with nc(2) obtain r where r: "cache_match (entries DYNAMIC_CACHE cs) req = Some r"
    by auto
  have others: "\<forall>nc\<in>set cs. fst nc \<noteq> DYNAMIC_CACHE \<longrightarrow> cache_match (snd nc) req = None"
    using holder_is_dynamic [OF inv assms(4)] by blast
  from others r have "caches_match cs req = Some r"
    by (rule caches_match_only_in)
  with assms(3-5) have "outcome (fetch_handler p cs req) = Responded r
      \<and> storage (fetch_handler p cs req) = cs
      \<and> put_calls (fetch_handler p cs req) = []"
    by (simp add: fetch_handler_def)
  with r show ?thesis by blast
qed

text \<open>
  An instance: the storage left by an earlier, answered request for the stories, and
  then no network.
\<close>

theorem fetch_api_fallback_dynamic_entry_witness:
  "''https://storymap.example'' \<noteq> API_ORIGIN
   \<and> reachable ''https://storymap.example''
        (storage (fetch_handler (online stories_old) [] stories_request))
   \<and> storage (fetch_handler (online stories_old) [] stories_request)
        = [(DYNAMIC_CACHE, [(stories_request, stories_old)])]
   \<and> method stories_request = ''GET''
   \<and> origin (url stories_request) = API_ORIGIN
   \<and> fetch offline stories_request = None
   \<and> cache_match (entries DYNAMIC_CACHE (storage (fetch_handler (online stories_old) [] stories_request)))
        stories_request = Some stories_old
   \<and> outcome (fetch_handler offline (storage (fetch_handler (online stories_old) [] stories_request))
        stories_request) = Responded stories_old"
proof -
  let ?cs = "storage (fetch_handler (online stories_old) [] stories_request)"
  have h1: "''https://storymap.example'' \<noteq> API_ORIGIN"
    and h3: "method stories_request = ''GET''"
    and h4: "origin (url stories_request) = API_ORIGIN"
    and h5: "fetch offline stories_request = None"
    by (simp_all add: example_defs)
  have h2: "reachable ''https://storymap.example'' ?cs"
    by (intro reachable.intros)
  have cs: "?cs = [(DYNAMIC_CACHE, [(stories_request, stories_old)])]"
    using h3 h4
    by (simp add: fetch_handler_def online_def open_then_put_def caches_open_def caches_keys_def
        put_in_def cache_put_def Let_def)
  have h6: "\<exists>nc\<in>set ?cs. cache_match (snd nc) stories_request \<noteq> None"
    unfolding cs by (simp add: cache_match_def)
  have held: "cache_match (entries DYNAMIC_CACHE ?cs) stories_request = Some stories_old"
    unfolding cs by (simp add: cache_match_def entries_def)
  from fetch_api_fallback_dynamic_entry [OF h1 h2 h3 h4 h5 h6] held
  have "outcome (fetch_handler offline ?cs stories_request) = Responded stories_old"
    by auto
  with h1 h2 cs h3 h4 h5 held show ?thesis
    by (intro conjI)
qed

end
